theory Spec2Isabelle
  imports Main "HOL-Library.Sublist"
begin

section \<open>C strings, buffers and the library calls of path.c\<close>

text \<open>
  A C string is represented by the list of its bytes before the terminating NUL, so a
  well-formed one holds no NUL byte. A pointer into a string is the list of the bytes from
  the pointer on: \<open>p[i]\<close> is \<open>chr_at p i\<close>, which is the terminator at \<open>i = length p\<close>,
  and \<open>p += k\<close> is \<open>drop k p\<close>. Every read of the source is at an index of at most
  the length: \<open>p[1]\<close> is read only behind \<open>p[0] == '.'\<close>, and \<open>p[len-1]\<close> only behind
  \<open>len > 0\<close>, where \<open>len\<close> is the length modulo \<open>2^32\<close> and so at most the length.

  The C type \<open>int\<close> has 32 bits. \<open>int len = strlen(p)\<close> keeps the low 32 bits of the
  length, read in two's complement (\<open>to_int\<close>), and every sum and difference of two
  \<open>int\<close> values is taken modulo \<open>2^32\<close> in the same way (\<open>add32\<close>, \<open>sub32\<close>). An
  \<open>int\<close> passed where a \<open>size_t\<close> is expected keeps its value when it is not negative;
  a negative one becomes a size that no block has.
\<close>

definition INT_MAX :: nat where
  "INT_MAX = 2147483647"

definition wrap32 :: "int \<Rightarrow> int" where
  "wrap32 x = (x + 2147483648) mod 4294967296 - 2147483648"

definition to_int :: "nat \<Rightarrow> int" where
  "to_int n = wrap32 (int n)"

definition add32 :: "int \<Rightarrow> int \<Rightarrow> int" where
  "add32 a b = wrap32 (a + b)"

definition sub32 :: "int \<Rightarrow> int \<Rightarrow> int" where
  "sub32 a b = wrap32 (a - b)"

definition NUL :: char where
  "NUL = CHR 0x00"

definition cstring :: "string \<Rightarrow> bool" where
  "cstring s = (NUL \<notin> set s)"

definition chr_at :: "string \<Rightarrow> nat \<Rightarrow> char" where
  "chr_at p i = (if i < length p then p ! i else NUL)"

definition strlen :: "string \<Rightarrow> nat" where
  "strlen p = length p"

text \<open>
  \<open>strncmp(a, b, n)\<close>: the difference of the first pair of bytes that differ among the
  first \<open>n\<close>, and 0 when there is none before \<open>n\<close> bytes or a common terminator.
\<close>

fun strncmp :: "string \<Rightarrow> string \<Rightarrow> nat \<Rightarrow> int" where
  "strncmp a b 0 = 0"
| "strncmp a b (Suc n) =
     (if chr_at a 0 \<noteq> chr_at b 0 then int (of_char (chr_at a 0)) - int (of_char (chr_at b 0))
      else if chr_at a 0 = NUL then 0
      else strncmp (drop 1 a) (drop 1 b) n)"

text \<open>
  \<open>malloc(len)\<close> either fails (\<open>ok = False\<close>, the null pointer) or hands out a block of
  \<open>len\<close> bytes with whatever the memory held (\<open>junk\<close>). A store or a \<open>memcpy\<close> outside
  the block, or a \<open>memcpy\<close> reading past the terminator of its source, is undefined
  behaviour: \<open>None\<close>.
\<close>

definition malloc :: "bool \<Rightarrow> (nat \<Rightarrow> char) \<Rightarrow> int \<Rightarrow> char list option" where
  "malloc ok junk len = (if ok \<and> 0 \<le> len then Some (map junk [0..<nat len]) else None)"

definition store :: "char list \<Rightarrow> int \<Rightarrow> char \<Rightarrow> char list option" where
  "store buf i c = (if 0 \<le> i \<and> nat i < length buf then Some (buf[nat i := c]) else None)"

definition memcpy :: "char list \<Rightarrow> int \<Rightarrow> string \<Rightarrow> int \<Rightarrow> char list option" where
  "memcpy buf off src n =
     (if 0 \<le> off \<and> 0 \<le> n \<and> nat n \<le> length src + 1 \<and> nat off + nat n \<le> length buf
      then Some (take (nat off) buf @ take (nat n) (src @ [NUL]) @ drop (nat off + nat n) buf)
      else None)"

section \<open>joinname\<close>

text \<open>The result of \<open>joinname\<close>: the null pointer, or the block it allocated and filled.\<close>

datatype joined = Null | Str "char list" | Undefined

text \<open>\<open>if (p[0] == '.' && len == 1) { p++; len = 0; }\<close>\<close>

definition single_dot :: "string \<Rightarrow> int \<Rightarrow> string \<times> int" where
  "single_dot p len = (if chr_at p 0 = CHR ''.'' \<and> len = 1 then (drop 1 p, 0) else (p, len))"

text \<open>\<open>for (; p[0] == '.' && p[1] == '/'; p += 2, len -= 2);\<close>\<close>

function skip_dot_slash :: "string \<Rightarrow> int \<Rightarrow> string \<times> int" where
  "skip_dot_slash p len =
     (if chr_at p 0 = CHR ''.'' \<and> chr_at p 1 = CHR ''/''
      then skip_dot_slash (drop 2 p) (sub32 len 2) else (p, len))"
  by pat_completeness auto
termination
  by (relation "measure (\<lambda>(p, len). length p)") (auto simp: chr_at_def NUL_def split: if_splits)

declare skip_dot_slash.simps [simp del]

text \<open>\<open>for (; name[0] == '/'; name++, lenn--);\<close>\<close>

function skip_slash :: "string \<Rightarrow> int \<Rightarrow> string \<times> int" where
  "skip_slash p len =
     (if chr_at p 0 = CHR ''/'' then skip_slash (drop 1 p) (sub32 len 1) else (p, len))"
  by pat_completeness auto
termination
  by (relation "measure (\<lambda>(p, len). length p)") (auto simp: chr_at_def NUL_def split: if_splits)

declare skip_slash.simps [simp del]

text \<open>Lines 90 to 100: the block is filled and terminated.\<close>

definition fill :: "char list \<Rightarrow> string \<Rightarrow> int \<Rightarrow> string \<Rightarrow> int \<Rightarrow> bool \<Rightarrow> int \<Rightarrow> char list option" where
  "fill str path lenp name lenn slash len =
     (case (if lenp = 0 \<and> lenn = 0 then store str 0 (CHR ''.'')
            else (case memcpy str 0 path lenp of
                    None \<Rightarrow> None
                  | Some str1 \<Rightarrow>
                      (if slash
                       then (case store str1 lenp (CHR ''/'') of
                               None \<Rightarrow> None
                             | Some str2 \<Rightarrow> memcpy str2 (add32 lenp 1) name lenn)
                       else memcpy str1 lenp name lenn))) of
        None \<Rightarrow> None
      | Some str3 \<Rightarrow> store str3 (sub32 len 1) NUL)"

definition joinname :: "bool \<Rightarrow> (nat \<Rightarrow> char) \<Rightarrow> string \<Rightarrow> string \<Rightarrow> joined" where
  "joinname ok junk path0 name0 =
     (let (path, lenp) = single_dot path0 (to_int (strlen path0));
          (name, lenn) = single_dot name0 (to_int (strlen name0));
          (name, lenn) = skip_dot_slash name lenn;
          (path, lenp) = skip_dot_slash path lenp;
          (name, lenn) = skip_slash name lenn;
          len = add32 (add32 lenp lenn) 1;
          (slash, len) =
            (if lenp = 0 \<and> lenn = 0 then (False, add32 len 1)
             else if 0 < lenp \<and> 0 < lenn \<and> chr_at path (nat (sub32 lenp 1)) \<noteq> CHR ''/''
             then (True, add32 len 1)
             else (False, len))
      in case malloc ok junk len of
           None \<Rightarrow> Null
         | Some str \<Rightarrow>
             (case fill str path lenp name lenn slash len of
                None \<Rightarrow> Undefined
              | Some str' \<Rightarrow> Str str'))"

section \<open>basename2\<close>

text \<open>
  The result of \<open>basename2\<close>: a pointer to the static \<open>dot\<close>, or a pointer into \<open>path\<close>,
  given by the bytes from it on.
\<close>

datatype view = Dot | In_path string

fun view_str :: "view \<Rightarrow> string" where
  "view_str Dot = ''.''"
| "view_str (In_path s) = s"

text \<open>\<open>for (; path[0] == '.' && path[1] == '/'; path += 2);\<close>\<close>

function skip_dot_slash_ptr :: "string \<Rightarrow> string" where
  "skip_dot_slash_ptr p =
     (if chr_at p 0 = CHR ''.'' \<and> chr_at p 1 = CHR ''/''
      then skip_dot_slash_ptr (drop 2 p) else p)"
  by pat_completeness auto
termination
  by (relation "measure length") (auto simp: chr_at_def NUL_def split: if_splits)

declare skip_dot_slash_ptr.simps [simp del]

text \<open>\<open>for (; *str == '/'; str++);\<close>\<close>

function skip_slash_ptr :: "string \<Rightarrow> string" where
  "skip_slash_ptr p = (if chr_at p 0 = CHR ''/'' then skip_slash_ptr (drop 1 p) else p)"
  by pat_completeness auto
termination
  by (relation "measure length") (auto simp: chr_at_def NUL_def split: if_splits)

declare skip_slash_ptr.simps [simp del]

text \<open>The label \<open>mismatch\<close>: \<open>return (path[0] == '\0') ? dot : path;\<close>\<close>

definition mismatch :: "string \<Rightarrow> view" where
  "mismatch path = (if chr_at path 0 = NUL then Dot else In_path path)"

definition basename2 :: "string \<Rightarrow> string \<Rightarrow> view" where
  "basename2 path0 dir0 =
     (let lend = to_int (strlen dir0);
          path = skip_dot_slash_ptr path0;
          (dir, lend) = skip_dot_slash dir0 lend;
          (dir, lend) = single_dot dir lend;
          lend = (if 0 < lend \<and> chr_at dir (nat (sub32 lend 1)) = CHR ''/''
                  then sub32 lend 1 else lend)
      in if 0 < lend \<and> strncmp path dir (nat lend) = 0
         then (let str = drop (nat lend) path
               in if chr_at str 0 \<noteq> CHR ''/'' \<and> chr_at str 0 \<noteq> NUL then mismatch path
                  else (let str = skip_slash_ptr str
                        in if chr_at str 0 = NUL then Dot else In_path str))
         else mismatch path)"

section \<open>The operations in the words of the specification\<close>

text \<open>
  The normalisation of section 4.1: an input that is exactly \<open>.\<close> counts as empty, the
  leading \<open>./\<close> prefixes go, and for \<open>name\<close> the leading slashes after them.
\<close>

definition dot_as_empty :: "string \<Rightarrow> string" where
  "dot_as_empty s = (if s = ''.'' then [] else s)"

definition norm_path :: "string \<Rightarrow> string" where
  "norm_path path = skip_dot_slash_ptr (dot_as_empty path)"

definition norm_name :: "string \<Rightarrow> string" where
  "norm_name name = dropWhile (\<lambda>c. c = CHR ''/'') (skip_dot_slash_ptr (dot_as_empty name))"

text \<open>
  The output construction of section 4.1: \<open>.\<close> when both parts are empty, else the two
  parts with one separator between them if both are non-empty and the first does not end
  with one.
\<close>

definition join_spec :: "string \<Rightarrow> string \<Rightarrow> string" where
  "join_spec path name =
     (let p = norm_path path; n = norm_name name
      in if p = [] \<and> n = [] then ''.''
         else if p \<noteq> [] \<and> n \<noteq> [] \<and> last p \<noteq> CHR ''/'' then p @ ''/'' @ n
         else p @ n)"

text \<open>
  The base directory of section 4.2, steps 1 to 3: the leading \<open>./\<close> prefixes go, an
  exact \<open>.\<close> counts as empty, and one trailing slash is left out of the comparison.
\<close>

definition norm_dir :: "string \<Rightarrow> string" where
  "norm_dir dir =
     (let d = dot_as_empty (skip_dot_slash_ptr dir)
      in if d \<noteq> [] \<and> last d = CHR ''/'' then butlast d else d)"

text \<open>
  Steps 4 to 6: the base matches when it is non-empty, a prefix of the stripped path, and
  followed there by a slash or by the end; then the result starts behind the slashes that
  follow it. Otherwise the stripped path is the result. Nothing left is \<open>.\<close>.
\<close>

definition matches :: "string \<Rightarrow> string \<Rightarrow> bool" where
  "matches d p =
     (d \<noteq> [] \<and> prefix d p \<and> (drop (length d) p = [] \<or> hd (drop (length d) p) = CHR ''/''))"

definition view_of :: "string \<Rightarrow> view" where
  "view_of s = (if s = [] then Dot else In_path s)"

definition relative_spec :: "string \<Rightarrow> string \<Rightarrow> view" where
  "relative_spec path dir =
     (let p = skip_dot_slash_ptr path; d = norm_dir dir
      in if matches d p then view_of (dropWhile (\<lambda>c. c = CHR ''/'') (drop (length d) p))
         else view_of p)"

text \<open>
  The round trip of section 8: \<open>dir\<close> is a slash-delimited prefix of \<open>path\<close> when it
  is a non-empty prefix and the cut is at a slash or at the end; the path with the slashes
  at the cut collapsed has one slash for all of them; the round trip joins \<open>dir\<close> and the
  name of \<open>path\<close> relative to \<open>dir\<close>.
\<close>

definition slash_prefix :: "string \<Rightarrow> string \<Rightarrow> bool" where
  "slash_prefix dir path =
     (dir \<noteq> [] \<and> prefix dir path \<and>
      (drop (length dir) path = [] \<or> hd (drop (length dir) path) = CHR ''/'' \<or>
       last dir = CHR ''/''))"

definition slashes_collapsed :: "string \<Rightarrow> string \<Rightarrow> string" where
  "slashes_collapsed dir path =
     (let d = rev (dropWhile (\<lambda>c. c = CHR ''/'') (rev dir));
          r = dropWhile (\<lambda>c. c = CHR ''/'') (drop (length dir) path)
      in if length d + length r = length path then path else d @ ''/'' @ r)"

definition roundtrip :: "(nat \<Rightarrow> char) \<Rightarrow> string \<Rightarrow> string \<Rightarrow> joined" where
  "roundtrip junk path dir = joinname True junk dir (view_str (basename2 path dir))"

text \<open>What the memory of a fresh block holds in the examples below.\<close>

definition stale :: "nat \<Rightarrow> char" where
  "stale i = CHR ''#''"

text \<open>A path of \<open>2^32 - 1\<close> bytes: \<open>/usr\<close> and \<open>4294967291\<close> times \<open>x\<close>.\<close>

definition long_path :: string where
  "long_path = ''/usr'' @ replicate 4294967291 (CHR ''x'')"

section \<open>Reading the strings and running the loops\<close>

lemma chr_at_Nil [simp]: "chr_at [] i = NUL"
  by (simp add: chr_at_def)

lemma chr_at_Cons_0 [simp]: "chr_at (c # s) 0 = c"
  by (simp add: chr_at_def)

lemma chr_at_Cons_Suc [simp]: "chr_at (c # s) (Suc i) = chr_at s i"
  by (simp add: chr_at_def)

lemma chr_at_Cons_1 [simp]: "chr_at (c # s) 1 = chr_at s 0"
  by (simp add: chr_at_def)

lemma NUL_neq [simp]: "NUL \<noteq> CHR ''.''" "NUL \<noteq> CHR ''/''" "CHR ''.'' \<noteq> NUL" "CHR ''/'' \<noteq> NUL"
  by (simp_all add: NUL_def)

lemma chr_at_0_NUL: "cstring p \<Longrightarrow> chr_at p 0 = NUL \<longleftrightarrow> p = []"
  by (cases p) (auto simp: cstring_def)

lemma chr_at_last: "p \<noteq> [] \<Longrightarrow> chr_at p (length p - Suc 0) = last p"
  by (simp add: chr_at_def last_conv_nth)

lemma cstring_simps [simp]:
  "cstring []" "cstring (c # s) \<longleftrightarrow> c \<noteq> NUL \<and> cstring s"
  "cstring (s @ t) \<longleftrightarrow> cstring s \<and> cstring t"
  by (auto simp: cstring_def)

lemma cstring_drop: "cstring s \<Longrightarrow> cstring (drop n s)"
  by (auto simp: cstring_def dest: in_set_dropD)

lemma cstring_dropWhile: "cstring s \<Longrightarrow> cstring (dropWhile P s)"
  by (auto simp: cstring_def dest: set_dropWhileD)

text \<open>The loops, as functions of the pointer alone.\<close>

lemma skip_dot_slash_ptr_simps [simp]:
  "skip_dot_slash_ptr [] = []"
  "skip_dot_slash_ptr [c] = [c]"
  "skip_dot_slash_ptr (c # d # s) =
     (if c = CHR ''.'' \<and> d = CHR ''/'' then skip_dot_slash_ptr s else c # d # s)"
  by (subst skip_dot_slash_ptr.simps, simp)+

lemma skip_dot_slash_simps [simp]:
  "skip_dot_slash [] len = ([], len)"
  "skip_dot_slash [c] len = ([c], len)"
  "skip_dot_slash (c # d # s) len =
     (if c = CHR ''.'' \<and> d = CHR ''/'' then skip_dot_slash s (sub32 len 2) else (c # d # s, len))"
  by (subst skip_dot_slash.simps, simp)+

lemma skip_slash_simps [simp]:
  "skip_slash [] len = ([], len)"
  "skip_slash (c # s) len = (if c = CHR ''/'' then skip_slash s (sub32 len 1) else (c # s, len))"
  by (subst skip_slash.simps, simp)+

lemma skip_slash_ptr_simps [simp]:
  "skip_slash_ptr [] = []"
  "skip_slash_ptr (c # s) = (if c = CHR ''/'' then skip_slash_ptr s else c # s)"
  by (subst skip_slash_ptr.simps, simp)+

text \<open>Below \<open>2^31\<close> the arithmetic of \<open>int\<close> is that of the integers.\<close>

lemma wrap32_id: "- 2147483648 \<le> x \<Longrightarrow> x < 2147483648 \<Longrightarrow> wrap32 x = x"
  by (simp add: wrap32_def)

lemma to_int_id: "n \<le> INT_MAX \<Longrightarrow> to_int n = int n"
  by (simp add: to_int_def wrap32_id INT_MAX_def)

lemma sub32_length:
  "k \<le> n \<Longrightarrow> n \<le> INT_MAX \<Longrightarrow> sub32 (int n) (int k) = int (n - k)"
  by (simp add: sub32_def wrap32_id INT_MAX_def)

lemma add32_length:
  "n + k \<le> INT_MAX \<Longrightarrow> add32 (int n) (int k) = int (n + k)"
  by (simp add: add32_def wrap32_id INT_MAX_def)

lemma length_skip_dot_slash_ptr: "length (skip_dot_slash_ptr p) \<le> length p"
  by (induction p rule: induct_list012) auto

lemma skip_dot_slash_eq:
  "length p \<le> INT_MAX \<Longrightarrow>
   skip_dot_slash p (int (length p)) =
     (skip_dot_slash_ptr p, int (length (skip_dot_slash_ptr p)))"
proof (induction p rule: induct_list012)
  case (3 c d s)
  have "sub32 (int (length (c # d # s))) (int 2) = int (length (c # d # s) - 2)"
    using 3(3) by (intro sub32_length) simp_all
  with 3 show ?case by simp
qed simp_all

lemma skip_slash_ptr_eq: "skip_slash_ptr p = dropWhile (\<lambda>c. c = CHR ''/'') p"
  by (induction p) auto

lemma skip_slash_eq:
  "length p \<le> INT_MAX \<Longrightarrow>
   skip_slash p (int (length p)) =
     (dropWhile (\<lambda>c. c = CHR ''/'') p, int (length (dropWhile (\<lambda>c. c = CHR ''/'') p)))"
proof (induction p)
  case (Cons c s)
  have "sub32 (int (length (c # s))) (int 1) = int (length (c # s) - 1)"
    using Cons(2) by (intro sub32_length) simp_all
  with Cons show ?case by simp
qed simp

lemma single_dot_eq:
  "single_dot p (int (length p)) = (if p = ''.'' then ([], 0) else (p, int (length p)))"
  by (cases p) (auto simp: single_dot_def)

section \<open>The block that joinname fills\<close>

lemma store_append:
  assumes "0 \<le> i" "length a = nat i"
  shows "store (a @ x # c) i ch = Some (a @ ch # c)"
proof -
  from assms have "nat i = length a" by simp
  with assms(1) show ?thesis by (simp add: store_def)
qed

lemma memcpy_append:
  "0 \<le> off \<Longrightarrow> length a = nat off \<Longrightarrow> length b = length src \<Longrightarrow>
   memcpy (a @ b @ c) off src (int (length src)) = Some (a @ src @ c)"
  by (simp add: memcpy_def)

lemma split_block:
  assumes "length str = k + m"
  obtains a b where "str = a @ b" "length a = k" "length b = m"
proof (rule that [of "take k str" "drop k str"])
qed (use assms in auto)

lemma fill_dot:
  assumes "length str = 2"
  shows "fill str [] 0 [] 0 False 2 = Some (''.'' @ [NUL])"
proof -
  from assms obtain x y where "str = [x, y]"
    by (cases str; cases "tl str") auto
  then show ?thesis
    by (simp add: fill_def store_def sub32_def wrap32_def)
qed

lemma fill_join:
  assumes len: "length str = length p + (if slash then 1 else 0) + length n + 1"
    and ne: "p \<noteq> [] \<or> n \<noteq> []"
    and bnd: "length str \<le> INT_MAX"
  shows "fill str p (int (length p)) n (int (length n)) slash (int (length str)) =
         Some (p @ (if slash then ''/'' else []) @ n @ [NUL])"
proof (cases slash)
  case True
  have inc: "add32 (int (length p)) 1 = int (length p) + 1"
    using len bnd True by (simp add: add32_def wrap32_id INT_MAX_def)
  have dec: "sub32 (int (length str)) 1 = int (length str) - 1"
    using len bnd True by (simp add: sub32_def wrap32_id INT_MAX_def)
  from len True have "length str = length p + (1 + (length n + 1))" by simp
  then obtain a r1 where 1: "str = a @ r1" "length a = length p" "length r1 = 1 + (length n + 1)"
    by (rule split_block)
  then obtain x r2 where 2: "r1 = x # r2" "length r2 = length n + 1"
    by (cases r1) auto
  then obtain b r3 where 3: "r2 = b @ r3" "length b = length n" "length r3 = 1"
    using split_block [of r2 "length n" 1] by auto
  then obtain y where 4: "r3 = [y]"
    by (cases r3) auto
  have m1: "memcpy str 0 p (int (length p)) = Some (p @ x # b @ [y])"
    using memcpy_append [of 0 "[]" a p "x # b @ [y]"] 1 2 3 4 by simp
  have s1: "store (p @ x # b @ [y]) (int (length p)) (CHR ''/'') = Some (p @ CHR ''/'' # b @ [y])"
    by (rule store_append) simp_all
  have m2: "memcpy (p @ CHR ''/'' # b @ [y]) (int (length p) + 1) n (int (length n))
            = Some (p @ CHR ''/'' # n @ [y])"
    using memcpy_append [of "int (length p) + 1" "p @ ''/''" b n "[y]"] 3 by simp
  have s2: "store (p @ CHR ''/'' # n @ [y]) (int (length str) - 1) NUL = Some (p @ CHR ''/'' # n @ [NUL])"
    using store_append [of "int (length str) - 1" "p @ CHR ''/'' # n" y "[]" NUL] len True by simp
  from ne True m1 s1 m2 s2 show ?thesis
    by (auto simp: fill_def inc dec)
next
  case False
  have dec: "sub32 (int (length str)) 1 = int (length str) - 1"
    using len bnd False by (simp add: sub32_def wrap32_id INT_MAX_def)
  from len False have "length str = length p + (length n + 1)" by simp
  then obtain a r1 where 1: "str = a @ r1" "length a = length p" "length r1 = length n + 1"
    by (rule split_block)
  then obtain b r3 where 3: "r1 = b @ r3" "length b = length n" "length r3 = 1"
    using split_block [of r1 "length n" 1] by auto
  then obtain y where 4: "r3 = [y]"
    by (cases r3) auto
  have m1: "memcpy str 0 p (int (length p)) = Some (p @ b @ [y])"
    using memcpy_append [of 0 "[]" a p "b @ [y]"] 1 3 4 by simp
  have m2: "memcpy (p @ b @ [y]) (int (length p)) n (int (length n)) = Some (p @ n @ [y])"
    using memcpy_append [of "int (length p)" p b n "[y]"] 3 by simp
  have s2: "store (p @ n @ [y]) (int (length str) - 1) NUL = Some (p @ n @ [NUL])"
    using store_append [of "int (length str) - 1" "p @ n" y "[]" NUL] len False by simp
  from ne False m1 m2 s2 show ?thesis
    by (auto simp: fill_def dec)
qed

section \<open>joinname computes the join of the specification\<close>

lemma single_dot_norm:
  "single_dot p (int (length p)) = (dot_as_empty p, int (length (dot_as_empty p)))"
  by (simp add: single_dot_eq dot_as_empty_def)

lemma length_dot_as_empty: "length (dot_as_empty p) \<le> length p"
  by (simp add: dot_as_empty_def)

lemma length_norm_path: "length (norm_path p) \<le> length p"
  using length_skip_dot_slash_ptr [of "dot_as_empty p"] length_dot_as_empty [of p]
  by (simp add: norm_path_def)

lemma length_norm_name: "length (norm_name p) \<le> length p"
  using length_skip_dot_slash_ptr [of "dot_as_empty p"] length_dot_as_empty [of p]
    length_dropWhile_le [of "\<lambda>c. c = CHR ''/''" "skip_dot_slash_ptr (dot_as_empty p)"]
  by (simp add: norm_name_def)

lemma joinname_eq:
  assumes bnd: "length path + length name + 2 \<le> INT_MAX"
  shows "joinname ok junk path name = (if ok then Str (join_spec path name @ [NUL]) else Null)"
proof -
  define p where "p = norm_path path"
  define n where "n = norm_name name"
  define n1 where "n1 = skip_dot_slash_ptr (dot_as_empty name)"
  define slash where "slash \<longleftrightarrow> p \<noteq> [] \<and> n \<noteq> [] \<and> last p \<noteq> CHR ''/''"
  define len where
    "len = int (length p) + int (length n) + (if (p = [] \<and> n = []) \<or> slash then 2 else 1)"
  have lp: "length p \<le> length path" and ln: "length n \<le> length name"
    by (simp_all add: p_def n_def length_norm_path length_norm_name)
  have ln1: "length n1 \<le> length name"
    using length_skip_dot_slash_ptr [of "dot_as_empty name"] length_dot_as_empty [of name]
    by (simp add: n1_def)
  have tp: "to_int (strlen path) = int (length path)"
    and tn: "to_int (strlen name) = int (length name)"
    using bnd by (simp_all add: to_int_id strlen_def)
  have sp: "skip_dot_slash (dot_as_empty path) (int (length (dot_as_empty path))) = (p, int (length p))"
    using bnd length_dot_as_empty [of path] by (simp add: skip_dot_slash_eq p_def norm_path_def)
  have sn1: "skip_dot_slash (dot_as_empty name) (int (length (dot_as_empty name))) = (n1, int (length n1))"
    using bnd length_dot_as_empty [of name] by (simp add: skip_dot_slash_eq n1_def)
  have sn2: "skip_slash n1 (int (length n1)) = (n, int (length n))"
    using bnd ln1 by (simp add: skip_slash_eq n_def norm_name_def n1_def)
  have e1: "add32 (add32 (int (length p)) (int (length n))) 1 = int (length p) + int (length n) + 1"
    using bnd lp ln by (simp add: add32_def wrap32_id INT_MAX_def)
  have e2: "add32 (int (length p) + int (length n) + 1) 1 = int (length p) + int (length n) + 2"
    using bnd lp ln by (simp add: add32_def wrap32_id INT_MAX_def)
  have e3: "sub32 (int (length p)) 1 = int (length p) - 1"
    using bnd lp by (simp add: sub32_def wrap32_id INT_MAX_def)
  have last: "chr_at p (nat (int (length p) - 1)) = last p" if "p \<noteq> []"
    using that chr_at_last [of p] by (simp add: nat_diff_distrib')
  have test: "(0 < int (length p) \<and> 0 < int (length n) \<and> chr_at p (nat (int (length p) - 1)) \<noteq> CHR ''/'') = slash"
    using last by (cases "p = []") (simp_all add: slash_def)
  have run: "joinname ok junk path name =
      (case malloc ok junk len of
         None \<Rightarrow> Null
       | Some str \<Rightarrow>
           (case fill str p (int (length p)) n (int (length n)) slash len of
              None \<Rightarrow> Undefined
            | Some str' \<Rightarrow> Str str'))"
    unfolding joinname_def tp tn single_dot_norm sp sn1 sn2 Let_def prod.case e1 e2 e3 test
    by (auto simp: len_def slash_def algebra_simps cong: option.case_cong)
  have len_le: "len \<le> int INT_MAX" and len_ge: "0 \<le> len"
    using bnd lp ln by (simp_all add: len_def)
  show ?thesis
  proof (cases ok)
    case False
    with run show ?thesis by (simp add: malloc_def)
  next
    case True
    define str where "str = map junk [0..<nat len]"
    have m: "malloc ok junk len = Some str"
      using True len_ge by (simp add: malloc_def str_def)
    have l: "int (length str) = len"
      using len_ge by (simp add: str_def)
    have sb: "length str \<le> INT_MAX"
      using l len_le by simp
    show ?thesis
    proof (cases "p = [] \<and> n = []")
      case True
      then have "len = 2" "\<not> slash"
        by (simp_all add: len_def slash_def)
      with True run m l fill_dot [of str] \<open>ok\<close> show ?thesis
        by (simp add: join_spec_def p_def [symmetric] n_def [symmetric])
    next
      case False
      then have "length str = length p + (if slash then 1 else 0) + length n + 1"
        using l by (auto simp: len_def)
      from fill_join [OF this _ sb] False have
        "fill str p (int (length p)) n (int (length n)) slash len =
         Some (p @ (if slash then ''/'' else []) @ n @ [NUL])"
        by (auto simp: l)
      with False run m \<open>ok\<close> show ?thesis
        by (auto simp: join_spec_def p_def [symmetric] n_def [symmetric] slash_def)
    qed
  qed
qed

section \<open>basename2 computes the relative name of the specification\<close>

lemma cstring_skip_dot_slash_ptr: "cstring p \<Longrightarrow> cstring (skip_dot_slash_ptr p)"
  by (induction p rule: induct_list012) auto

lemma chr_at_0_hd: "p \<noteq> [] \<Longrightarrow> chr_at p 0 = hd p"
  by (cases p) auto

lemma of_char_NUL: "(of_char c :: nat) = 0 \<longleftrightarrow> c = NUL"
  using of_char_eq_iff [where ?'a = nat, of c NUL] by (simp add: NUL_def)

lemma strncmp_eq:
  "cstring a \<Longrightarrow> cstring b \<Longrightarrow> strncmp a b k = 0 \<longleftrightarrow> take k a = take k b"
proof (induction k arbitrary: a b)
  case 0
  then show ?case by simp
next
  case (Suc k)
  show ?case
  proof (cases a)
    case Nil
    with Suc.prems show ?thesis
      by (cases b) (auto simp: of_char_NUL)
  next
    case a: (Cons x a')
    show ?thesis
    proof (cases b)
      case Nil
      with a Suc.prems show ?thesis
        by (auto simp: of_char_NUL)
    next
      case (Cons y b')
      with a Suc.prems Suc.IH [of a' b'] show ?thesis
        by auto
    qed
  qed
qed

lemma take_prefix: "take (length d) p = d \<longleftrightarrow> prefix d p"
  by (metis append_take_drop_id prefixE prefixI append_eq_conv_conj)

lemma mismatch_eq: "cstring p \<Longrightarrow> mismatch p = view_of p"
  by (simp add: mismatch_def view_of_def chr_at_0_NUL)

lemma basename2_eq:
  assumes "cstring path" "cstring dir" and bnd: "length dir \<le> INT_MAX"
  shows "basename2 path dir = relative_spec path dir"
proof -
  define p where "p = skip_dot_slash_ptr path"
  define d0 where "d0 = skip_dot_slash_ptr dir"
  define d1 where "d1 = dot_as_empty d0"
  define d where "d = norm_dir dir"
  have cp: "cstring p" and cd1: "cstring d1"
    using assms by (simp_all add: p_def d1_def d0_def dot_as_empty_def cstring_skip_dot_slash_ptr)
  have d: "d = (if d1 \<noteq> [] \<and> last d1 = CHR ''/'' then butlast d1 else d1)"
    by (simp add: d_def norm_dir_def d1_def d0_def)
  have s1: "skip_dot_slash dir (to_int (strlen dir)) = (d0, int (length d0))"
    using bnd by (simp add: skip_dot_slash_eq d0_def strlen_def to_int_id)
  have s2: "single_dot d0 (int (length d0)) = (d1, int (length d1))"
    using single_dot_norm [of d0] by (simp add: d1_def)
  have ld1: "length d1 \<le> INT_MAX"
    using bnd length_skip_dot_slash_ptr [of dir] length_dot_as_empty [of d0]
    by (simp add: d1_def d0_def)
  have s3: "(if 0 < int (length d1) \<and> chr_at d1 (nat (sub32 (int (length d1)) 1)) = CHR ''/''
             then sub32 (int (length d1)) 1 else int (length d1)) = int (length d)"
  proof (cases d1 rule: rev_cases)
    case Nil
    then show ?thesis by (simp add: d)
  next
    case (snoc ys y)
    have "sub32 (int (length d1)) (int 1) = int (length d1 - 1)"
      using ld1 snoc by (intro sub32_length) simp_all
    with snoc show ?thesis by (simp add: d chr_at_def)
  qed
  have tk: "take (length d) d1 = d"
    by (auto simp: d butlast_conv_take)
  have cmp: "strncmp p d1 (length d) = 0 \<longleftrightarrow> prefix d p"
    using strncmp_eq [OF cp cd1, of "length d"] by (simp add: tk) (metis take_prefix)
  have run: "basename2 path dir =
      (if 0 < length d \<and> strncmp p d1 (length d) = 0
         then (let str = drop (length d) p
               in if chr_at str 0 \<noteq> CHR ''/'' \<and> chr_at str 0 \<noteq> NUL then mismatch p
                  else (let str = skip_slash_ptr str
                        in if chr_at str 0 = NUL then Dot else In_path str))
         else mismatch p)"
    unfolding basename2_def Let_def s1 prod.case s2 s3 p_def [symmetric]
    by simp
  have bnd: "(chr_at (drop (length d) p) 0 \<noteq> CHR ''/'' \<and> chr_at (drop (length d) p) 0 \<noteq> NUL)
             \<longleftrightarrow> \<not> (drop (length d) p = [] \<or> hd (drop (length d) p) = CHR ''/'')"
    using chr_at_0_NUL [OF cstring_drop [OF cp, of "length d"]] chr_at_0_hd [of "drop (length d) p"]
    by auto
  have fin: "(if chr_at (dropWhile (\<lambda>c. c = CHR ''/'') (drop (length d) p)) 0 = NUL then Dot
              else In_path (dropWhile (\<lambda>c. c = CHR ''/'') (drop (length d) p)))
             = view_of (dropWhile (\<lambda>c. c = CHR ''/'') (drop (length d) p))"
    using chr_at_0_NUL [OF cstring_dropWhile [OF cstring_drop [OF cp]]]
    by (simp add: view_of_def)
  show ?thesis
    unfolding run relative_spec_def Let_def p_def [symmetric] d_def [symmetric]
      matches_def cmp bnd skip_slash_ptr_eq fin mismatch_eq [OF cp]
    by auto
qed

section \<open>Inputs that the normalisation leaves alone\<close>

lemma skip_dot_slash_ptr_id: "\<not> prefix ''./'' s \<Longrightarrow> skip_dot_slash_ptr s = s"
  by (induction s rule: induct_list012) auto

lemma norm_path_id: "s \<noteq> ''.'' \<Longrightarrow> \<not> prefix ''./'' s \<Longrightarrow> norm_path s = s"
  by (simp add: norm_path_def dot_as_empty_def skip_dot_slash_ptr_id)

lemma dropWhile_id: "s = [] \<or> \<not> P (hd s) \<Longrightarrow> dropWhile P s = s"
  by (cases s) auto

lemma norm_name_id:
  "s \<noteq> ''.'' \<Longrightarrow> \<not> prefix ''./'' s \<Longrightarrow> s = [] \<or> hd s \<noteq> CHR ''/'' \<Longrightarrow> norm_name s = s"
  by (simp add: norm_name_def dot_as_empty_def skip_dot_slash_ptr_id dropWhile_id)

lemma norm_name_slash:
  "norm_name (CHR ''/'' # s) = dropWhile (\<lambda>c. c = CHR ''/'') s"
  by (cases s) (simp_all add: norm_name_def dot_as_empty_def)

lemma norm_name_dot: "norm_name ''.'' = []"
  by (simp add: norm_name_def dot_as_empty_def)


lemma matches_iff:
  "matches d p \<longleftrightarrow> d \<noteq> [] \<and> (p = d \<or> (\<exists>rest. p = d @ CHR ''/'' # rest))"
proof
  assume m: "matches d p"
  then obtain r where p: "p = d @ r"
    by (auto simp: matches_def prefix_def)
  with m show "d \<noteq> [] \<and> (p = d \<or> (\<exists>rest. p = d @ CHR ''/'' # rest))"
    by (cases r) (auto simp: matches_def)
next
  assume "d \<noteq> [] \<and> (p = d \<or> (\<exists>rest. p = d @ CHR ''/'' # rest))"
  then show "matches d p"
    by (auto simp: matches_def)
qed


lemma no_dot_slash_append:
  assumes "dir \<noteq> []" "dir \<noteq> ''.''" "\<not> prefix ''./'' dir"
  shows "\<not> prefix ''./'' (dir @ rest)"
  using assms by (cases dir; cases "tl dir") auto

lemma view_str_view_of: "view_str (view_of r) = (if r = [] then ''.'' else r)"
  by (simp add: view_of_def)

lemma dropWhile_slash_hd:
  "dropWhile (\<lambda>c. c = CHR ''/'') s = [] \<or> hd (dropWhile (\<lambda>c. c = CHR ''/'') s) \<noteq> CHR ''/''"
  using hd_dropWhile [of "\<lambda>c. c = CHR ''/''" s] by auto

section \<open>The claims\<close>

text \<open>
  C1, as the specification states it: for a slash-delimited prefix \<open>dir\<close> of \<open>path\<close> the
  round trip gives \<open>path\<close> with the slashes at the cut collapsed. For \<open>./a\<close> and
  \<open>./a/b\<close> that is \<open>./a/b\<close>, and the round trip gives \<open>a/b\<close>; for \<open>/usr\<close> and
  \<open>/usr/\<close> that is \<open>/usr/\<close>, and the round trip gives \<open>/usr\<close>.
\<close>

theorem roundtrip_counterexample:
  "slash_prefix ''./a'' ''./a/b'' \<and>
   slashes_collapsed ''./a'' ''./a/b'' = ''./a/b'' \<and>
   roundtrip stale ''./a/b'' ''./a'' = Str (''a/b'' @ [NUL]) \<and>
   roundtrip stale ''./a/b'' ''./a'' \<noteq> Str (slashes_collapsed ''./a'' ''./a/b'' @ [NUL]) \<and>
   slash_prefix ''/usr'' ''/usr/'' \<and>
   slashes_collapsed ''/usr'' ''/usr/'' = ''/usr/'' \<and>
   roundtrip stale ''/usr/'' ''/usr'' = Str (''/usr'' @ [NUL])"
  by (simp add: slash_prefix_def slashes_collapsed_def roundtrip_def joinname_eq join_spec_def
      norm_path_def norm_name_def basename2_eq relative_spec_def norm_dir_def matches_def
      view_of_def dot_as_empty_def NUL_def INT_MAX_def)

text \<open>
  C1, amended: let the lengths of \<open>dir\<close> and \<open>path\<close> and 2 together be at most
  \<open>INT_MAX\<close>, let \<open>dir\<close> be a slash-delimited prefix of \<open>path\<close> that is not \<open>.\<close> and
  does not start with \<open>./\<close>, and let \<open>r\<close>, what follows \<open>dir\<close> and the slashes behind it in
  \<open>path\<close>, be neither \<open>.\<close> nor start with \<open>./\<close>. Then the round trip gives \<open>dir\<close> when \<open>r\<close>
  is empty, \<open>dir + r\<close> when \<open>dir\<close> ends with a slash, and \<open>dir + "/" + r\<close> otherwise. When
  \<open>r\<close> is not empty and \<open>dir\<close> does not end with two slashes, that is \<open>path\<close> with the
  slashes at the cut collapsed.
\<close>

theorem roundtrip_joins_relative_name:
  fixes path dir :: string
  defines "r \<equiv> dropWhile (\<lambda>c. c = CHR ''/'') (drop (length dir) path)"
  defines "res \<equiv> (if r = [] then dir else if last dir = CHR ''/'' then dir @ r else dir @ ''/'' @ r)"
  assumes cs: "cstring path"
    and bnd: "length dir + length path + 2 \<le> INT_MAX"
    and sp: "slash_prefix dir path"
    and dir: "dir \<noteq> ''.''" "\<not> prefix ''./'' dir"
    and r: "r \<noteq> ''.''" "\<not> prefix ''./'' r"
  shows "roundtrip junk path dir = Str (res @ [NUL]) \<and>
         (r \<noteq> [] \<and> \<not> suffix ''//'' dir \<longrightarrow> res = slashes_collapsed dir path)"
proof -
  from sp obtain rest where path: "path = dir @ rest" and ne: "dir \<noteq> []"
    and cut: "rest = [] \<or> hd rest = CHR ''/'' \<or> last dir = CHR ''/''"
    by (auto simp: slash_prefix_def prefix_def)
  have r_rest: "r = dropWhile (\<lambda>c. c = CHR ''/'') rest"
    by (simp add: r_def path)
  have cd: "cstring dir"
    using cs by (simp add: path)
  have p: "skip_dot_slash_ptr path = path"
    using no_dot_slash_append [OF ne dir] by (simp add: path skip_dot_slash_ptr_id)
  have d0: "dot_as_empty (skip_dot_slash_ptr dir) = dir"
    using dir by (simp add: skip_dot_slash_ptr_id dot_as_empty_def)
  have nr: "norm_name r = r"
    using r dropWhile_slash_hd [of "drop (length dir) path"]
    by (intro norm_name_id) (simp_all add: r_def)
  have np: "norm_path dir = dir"
    using dir by (simp add: norm_path_id)
  have join_r: "join_spec dir (if r = [] then ''.'' else r) = res"
    using ne by (auto simp: join_spec_def np nr norm_name_dot res_def)
  have bd: "length dir \<le> INT_MAX"
    using bnd by simp
  have "length r \<le> length rest"
    using length_dropWhile_le [of "\<lambda>c. c = CHR ''/''" rest] by (simp add: r_rest)
  then have "length dir + length (if r = [] then ''.'' else r) + 2 \<le> INT_MAX"
    using bnd ne by (cases dir) (auto simp: path)
  then have jn: "joinname True junk dir (if r = [] then ''.'' else r) = Str (res @ [NUL])"
    using join_r by (simp add: joinname_eq)
  have rt: "roundtrip junk path dir = Str (res @ [NUL])"
  proof (cases "last dir = CHR ''/''")
    case False
    then have nd: "norm_dir dir = dir"
      by (simp add: norm_dir_def d0)
    from False cut have "matches dir path"
      by (cases rest) (auto simp: matches_iff ne path)
    then have "basename2 path dir = view_of r"
      using cs cd bd by (simp add: basename2_eq relative_spec_def nd p r_def)
    then show ?thesis
      using jn by (simp add: roundtrip_def view_str_view_of)
  next
    case True
    with ne obtain d where dir_d: "dir = d @ ''/''"
      by (cases dir rule: rev_cases) auto
    have nd: "norm_dir dir = d"
      unfolding norm_dir_def d0 Let_def by (simp add: dir_d)
    show ?thesis
    proof (cases "d = []")
      case False
      then have "matches d path"
        by (auto simp: matches_iff path dir_d)
      moreover have "dropWhile (\<lambda>c. c = CHR ''/'') (drop (length d) path) = r"
        by (simp add: path dir_d r_rest)
      ultimately have "basename2 path dir = view_of r"
        using cs cd bd by (simp add: basename2_eq relative_spec_def nd p)
      then show ?thesis
        using jn by (simp add: roundtrip_def view_str_view_of)
    next
      case d: True
      then have "\<not> matches (norm_dir dir) path"
        by (simp add: nd matches_def)
      moreover have "path \<noteq> []"
        using ne by (simp add: path)
      ultimately have b: "basename2 path dir = In_path path"
        using cs cd bd by (simp add: basename2_eq relative_spec_def p view_of_def)
      have "norm_name path = r"
        by (simp add: path dir_d d norm_name_slash r_rest)
      then have "join_spec dir path = res"
        using True np by (auto simp: join_spec_def res_def dir_d d)
      with b bnd show ?thesis
        by (simp add: roundtrip_def joinname_eq)
    qed
  qed
  have col: "res = slashes_collapsed dir path" if "r \<noteq> []" "\<not> suffix ''//'' dir"
  proof (cases "last dir = CHR ''/''")
    case False
    with ne have "dropWhile (\<lambda>c. c = CHR ''/'') (rev dir) = rev dir"
      by (cases dir rule: rev_cases) auto
    moreover from that(1) False cut obtain rest' where "rest = CHR ''/'' # rest'"
      by (cases rest) (auto simp: r_rest)
    then have "length r < length rest"
      using length_dropWhile_le [of "\<lambda>c. c = CHR ''/''" rest'] by (simp add: r_rest)
    ultimately show ?thesis
      using False that(1) by (simp add: slashes_collapsed_def res_def path r_rest [symmetric])
  next
    case True
    with ne obtain d where dir_d: "dir = d @ ''/''"
      by (cases dir rule: rev_cases) auto
    with that(2) have "d = [] \<or> last d \<noteq> CHR ''/''"
      by (cases d rule: rev_cases) (auto simp: suffix_def)
    then have "dropWhile (\<lambda>c. c = CHR ''/'') (rev dir) = rev d"
      by (cases d rule: rev_cases) (auto simp: dir_d)
    moreover have "length r \<le> length rest"
      using length_dropWhile_le [of "\<lambda>c. c = CHR ''/''" rest] by (simp add: r_rest)
    ultimately show ?thesis
      using True that(1) by (simp add: slashes_collapsed_def res_def path dir_d r_rest [symmetric])
  qed
  from rt col show ?thesis
    by blast
qed

theorem roundtrip_joins_relative_name_witness:
  "roundtrip stale ''/usr//lib'' ''/usr'' = Str (''/usr/lib'' @ [NUL]) \<and>
   slashes_collapsed ''/usr'' ''/usr//lib'' = ''/usr/lib''"
  using roundtrip_joins_relative_name [of "''/usr//lib''" "''/usr''" stale]
  by (simp add: slash_prefix_def suffix_to_prefix NUL_def INT_MAX_def)

text \<open>
  C2. \<open>joinname\<close> returns the eight results of the table of section 4.1, each in a block
  that holds the result and its terminator and nothing else.
\<close>

theorem joinname_table:
  "joinname True junk ''/usr'' ''lib'' = Str (''/usr/lib'' @ [NUL]) \<and>
   joinname True junk ''/usr'' ''.'' = Str (''/usr'' @ [NUL]) \<and>
   joinname True junk ''/usr'' ''..'' = Str (''/usr/..'' @ [NUL]) \<and>
   joinname True junk ''.'' ''lib'' = Str (''lib'' @ [NUL]) \<and>
   joinname True junk ''..'' ''lib'' = Str (''../lib'' @ [NUL]) \<and>
   joinname True junk ''.'' ''.'' = Str (''.'' @ [NUL]) \<and>
   joinname True junk ''..'' ''..'' = Str (''../..'' @ [NUL]) \<and>
   joinname True junk [] [] = Str (''.'' @ [NUL])"
  by (simp add: joinname_eq join_spec_def norm_path_def norm_name_def dot_as_empty_def
      INT_MAX_def)

theorem joinname_table_witness:
  "joinname True stale ''/usr'' ''lib'' = Str (''/usr/lib'' @ [NUL]) \<and>
   joinname True stale ''.'' ''lib'' = Str (''lib'' @ [NUL]) \<and>
   joinname True stale [] [] = Str (''.'' @ [NUL])"
  using joinname_table [of stale] by simp

text \<open>
  C3, as the specification states it: for a non-empty \<open>path\<close> that does not end with a
  slash and a non-empty \<open>name\<close> that does not start with one, the result is
  \<open>path + "/" + name\<close>. The path \<open>.\<close> is such a path, and \<open>joinname\<close> drops it.
\<close>

theorem join_separator_counterexample:
  "''.'' \<noteq> [] \<and> last ''.'' \<noteq> CHR ''/'' \<and> ''lib'' \<noteq> [] \<and> hd ''lib'' \<noteq> CHR ''/'' \<and>
   joinname True stale ''.'' ''lib'' = Str (''lib'' @ [NUL]) \<and>
   joinname True stale ''.'' ''lib'' \<noteq> Str (''.'' @ ''/'' @ ''lib'' @ [NUL])"
  by (simp add: joinname_eq join_spec_def norm_path_def norm_name_def dot_as_empty_def
      INT_MAX_def)

text \<open>
  C3, amended: when moreover neither input is exactly \<open>.\<close> or starts with \<open>./\<close>, and
  the two lengths and 2 together are at most \<open>INT_MAX\<close>, the result is
  \<open>path + "/" + name\<close>.
\<close>

theorem join_separator:
  assumes "path \<noteq> []" "last path \<noteq> CHR ''/''" "path \<noteq> ''.''" "\<not> prefix ''./'' path"
    and "name \<noteq> []" "hd name \<noteq> CHR ''/''" "name \<noteq> ''.''" "\<not> prefix ''./'' name"
    and "length path + length name + 2 \<le> INT_MAX"
  shows "joinname True junk path name = Str (path @ ''/'' @ name @ [NUL])"
  using assms by (simp add: joinname_eq join_spec_def norm_path_id norm_name_id)

theorem join_separator_witness:
  "joinname True stale ''/usr'' ''lib'' = Str (''/usr'' @ ''/'' @ ''lib'' @ [NUL])"
  by (rule join_separator) (simp_all add: INT_MAX_def)

text \<open>
  C4, as the specification states it: in the mismatch case the result is the pointer that
  the caller passed, so \<open>./foo\<close> for the path \<open>./foo\<close> and a base that does not match.
  The loop of line 142 advances \<open>path\<close> itself, and line 163 returns that.
\<close>

theorem mismatch_original_pointer_counterexample:
  "\<not> prefix (norm_dir ''/bar'') ''./foo'' \<and>
   \<not> prefix (norm_dir ''/bar'') (skip_dot_slash_ptr ''./foo'') \<and>
   basename2 ''./foo'' ''/bar'' = In_path ''foo'' \<and>
   view_str (basename2 ''./foo'' ''/bar'') \<noteq> ''./foo''"
  by (simp add: basename2_eq relative_spec_def norm_dir_def matches_def view_of_def
      dot_as_empty_def NUL_def INT_MAX_def)

text \<open>
  C4, amended: for a \<open>dir\<close> of at most \<open>INT_MAX\<close> bytes, in the mismatch case (the
  normalised \<open>dir\<close> is empty, or is not a prefix of
  the path without its leading \<open>./\<close> prefixes, or is followed there by a byte other than a
  slash) the result is the pointer behind the leading \<open>./\<close> prefixes of \<open>path\<close>, or the
  static \<open>.\<close> when nothing is left there.
\<close>

theorem mismatch_stripped_pointer:
  assumes "cstring path" "cstring dir" "length dir \<le> INT_MAX"
    and "norm_dir dir = [] \<or> \<not> prefix (norm_dir dir) (skip_dot_slash_ptr path) \<or>
         (\<exists>c rest. skip_dot_slash_ptr path = norm_dir dir @ c # rest \<and> c \<noteq> CHR ''/'')"
  shows "basename2 path dir =
         (if skip_dot_slash_ptr path = [] then Dot else In_path (skip_dot_slash_ptr path))"
proof -
  from assms(4) have "\<not> matches (norm_dir dir) (skip_dot_slash_ptr path)"
    by (auto simp: matches_iff)
  with assms(1,2,3) show ?thesis
    by (simp add: basename2_eq relative_spec_def view_of_def)
qed

theorem mismatch_stripped_pointer_witness:
  "basename2 ''./foo'' ''/bar'' = In_path ''foo''"
  using mismatch_stripped_pointer [of "''./foo''" "''/bar''"]
  by (simp add: norm_dir_def dot_as_empty_def NUL_def INT_MAX_def)





text \<open>C7. Whatever \<open>dir\<close> is, \<open>basename2("", dir)\<close> is the static \<open>.\<close>.\<close>

theorem basename2_empty_path: "basename2 [] dir = Dot \<and> view_str (basename2 [] dir) = ''.''"
proof -
  have "basename2 [] dir = Dot"
    by (auto simp: basename2_def Let_def mismatch_def split: prod.splits)
  then show ?thesis by simp
qed

theorem basename2_empty_path_witness: "basename2 [] ''/usr'' = Dot \<and> basename2 [] [] = Dot"
  using basename2_empty_path [of "''/usr''"] basename2_empty_path [of "[]"] by simp

text \<open>
  C8, as the specification states it: whatever the inputs are, a successful allocation
  gives a terminated string and there is no other failure. For a path of \<open>2^32 - 1\<close>
  bytes \<open>lenp\<close> is \<open>-1\<close>, the block has 3 bytes for the name \<open>lib\<close> and its terminator,
  the allocation succeeds, and the \<open>memcpy\<close> of line 93 is asked for \<open>(size_t)-1\<close> bytes.
\<close>

theorem joinname_long_path_counterexample:
  "length long_path = 4294967295 \<and>
   to_int (strlen long_path) = - 1 \<and>
   malloc True stale 3 = Some [CHR ''#'', CHR ''#'', CHR ''#''] \<and>
   joinname True stale long_path ''lib'' = Undefined"
proof -
  define xs where "xs = replicate 4294967291 (CHR ''x'')"
  have lp: "long_path = CHR ''/'' # CHR ''u'' # CHR ''s'' # CHR ''r'' # xs"
    by (simp add: long_path_def xs_def)
  have lx: "length xs = 4294967291"
    by (simp add: xs_def)
  have 1: "length long_path = 4294967295"
    by (simp add: lp lx)
  have 2: "to_int (strlen long_path) = - 1"
    by (simp add: to_int_def strlen_def 1 wrap32_def)
  have 3: "malloc True stale 3 = Some [CHR ''#'', CHR ''#'', CHR ''#'']"
    by (simp add: malloc_def stale_def upt_rec)
  have 4: "single_dot long_path (- 1) = (long_path, - 1)"
    by (simp add: single_dot_def)
  have 5: "skip_dot_slash long_path (- 1) = (long_path, - 1)"
    by (simp add: lp)
  have 6: "fill [CHR ''#'', CHR ''#'', CHR ''#''] long_path (- 1) ''lib'' 3 False 3 = None"
    by (simp add: fill_def memcpy_def)
  have 7: "to_int (strlen ''lib'') = 3"
    by (simp add: to_int_def strlen_def wrap32_def)
  have 8: "single_dot ''lib'' 3 = (''lib'', 3)"
    by (simp add: single_dot_def)
  have "joinname True stale long_path ''lib'' = Undefined"
    by (simp add: joinname_def 2 4 5 7 8 add32_def sub32_def wrap32_def 3 6)
  with 1 2 3 show ?thesis
    by simp
qed

text \<open>
  C8, amended: when the two lengths and 2 together are at most \<open>INT_MAX\<close>, a failed
  allocation gives the null pointer, a successful one gives a block that ends with the
  terminator, and no write leaves the block.
\<close>

theorem joinname_only_allocation_fails:
  assumes "length path + length name + 2 \<le> INT_MAX"
  shows "joinname False junk path name = Null \<and>
         (\<exists>s. joinname True junk path name = Str (s @ [NUL])) \<and>
         joinname ok junk path name \<noteq> Undefined"
  using assms by (simp add: joinname_eq)

theorem joinname_only_allocation_fails_witness:
  "joinname False stale ''/usr'' ''lib'' = Null \<and>
   (\<exists>s. joinname True stale ''/usr'' ''lib'' = Str (s @ [NUL])) \<and>
   joinname True stale ''/usr'' ''lib'' \<noteq> Undefined"
  using joinname_only_allocation_fails [of "''/usr''" "''lib''" stale True]
  by (simp add: INT_MAX_def)





end
